theory Spec2Isabelle
  imports Complex_Main
begin

section \<open>Two-lane vectors and the intrinsics used by ComplexSimd\<close>

text \<open>
  A \<open>double\<close> is embedded as an exact real number: rounding, infinities and NaN are
  outside the model. A \<open>__m128d\<close> holds two doubles; lane 0 is the low 64 bits.
\<close>

type_synonym double = real

record m128d =
  lane0 :: double
  lane1 :: double

text \<open>
  A \<open>__m128i\<close> as the two 64-bit halves of the register. The casts between the two
  vector types reinterpret the same 128 bits, so each half carries the double stored there.
\<close>

record m128i =
  lo64 :: double
  hi64 :: double

definition mm_set_pd :: "double \<Rightarrow> double \<Rightarrow> m128d" where
  \<comment> \<open>\<open>_mm_set_pd(e1, e0)\<close>: the first argument is the high lane.\<close>
  "mm_set_pd e1 e0 = \<lparr>lane0 = e0, lane1 = e1\<rparr>"

definition mm_set1_pd :: "double \<Rightarrow> m128d" where
  "mm_set1_pd a = \<lparr>lane0 = a, lane1 = a\<rparr>"

definition mm_add_pd :: "m128d \<Rightarrow> m128d \<Rightarrow> m128d" where
  "mm_add_pd a b = \<lparr>lane0 = lane0 a + lane0 b, lane1 = lane1 a + lane1 b\<rparr>"

definition mm_sub_pd :: "m128d \<Rightarrow> m128d \<Rightarrow> m128d" where
  "mm_sub_pd a b = \<lparr>lane0 = lane0 a - lane0 b, lane1 = lane1 a - lane1 b\<rparr>"

definition mm_mul_pd :: "m128d \<Rightarrow> m128d \<Rightarrow> m128d" where
  "mm_mul_pd a b = \<lparr>lane0 = lane0 a * lane0 b, lane1 = lane1 a * lane1 b\<rparr>"

definition mm_div_pd :: "m128d \<Rightarrow> m128d \<Rightarrow> m128d" where
  "mm_div_pd a b = \<lparr>lane0 = lane0 a / lane0 b, lane1 = lane1 a / lane1 b\<rparr>"

definition mm_castpd_si128 :: "m128d \<Rightarrow> m128i" where
  "mm_castpd_si128 a = \<lparr>lo64 = lane0 a, hi64 = lane1 a\<rparr>"

definition mm_castsi128_pd :: "m128i \<Rightarrow> m128d" where
  "mm_castsi128_pd a = \<lparr>lane0 = lo64 a, lane1 = hi64 a\<rparr>"

definition mm_bslli_si128_8 :: "m128i \<Rightarrow> m128i" where
  \<comment> \<open>\<open>_mm_bslli_si128(a, 8)\<close>: shift left by eight bytes, zero bytes come in at the
      bottom; the all-zero half is the double \<open>+0.0\<close>.\<close>
  "mm_bslli_si128_8 a = \<lparr>lo64 = 0, hi64 = lo64 a\<rparr>"

definition mm_bsrli_si128_8 :: "m128i \<Rightarrow> m128i" where
  \<comment> \<open>\<open>_mm_bsrli_si128(a, 8)\<close>: shift right by eight bytes.\<close>
  "mm_bsrli_si128_8 a = \<lparr>lo64 = hi64 a, hi64 = 0\<rparr>"

definition mm_move_sd :: "m128d \<Rightarrow> m128d \<Rightarrow> m128d" where
  \<comment> \<open>\<open>_mm_move_sd(a, b)\<close>: low lane of \<open>b\<close>, high lane of \<open>a\<close>.\<close>
  "mm_move_sd a b = \<lparr>lane0 = lane0 b, lane1 = lane1 a\<rparr>"

section \<open>struct ComplexSimd\<close>

record ComplexSimd =
  val :: m128d

definition ComplexSimd_v :: "m128d \<Rightarrow> ComplexSimd" where
  \<comment> \<open>\<open>ComplexSimd(__m128d v)\<close>\<close>
  "ComplexSimd_v v = \<lparr>val = v\<rparr>"

definition ComplexSimd_ri :: "double \<Rightarrow> double \<Rightarrow> ComplexSimd" where
  \<comment> \<open>\<open>ComplexSimd(double real, double imag)\<close>\<close>
  "ComplexSimd_ri re im = \<lparr>val = mm_set_pd im re\<rparr>"

subsection \<open>Const member functions and free functions: the value computed\<close>

text \<open>
  The const operators read \<open>_val\<close> of \<open>*this\<close> and of their argument and return a new
  object. Each definition below is the value returned, as a function of the values of the
  two objects read.
\<close>

definition op_add :: "ComplexSimd \<Rightarrow> ComplexSimd \<Rightarrow> ComplexSimd" where
  "op_add z other = ComplexSimd_v (mm_add_pd (val z) (val other))"

definition op_sub :: "ComplexSimd \<Rightarrow> ComplexSimd \<Rightarrow> ComplexSimd" where
  "op_sub z other = ComplexSimd_v (mm_sub_pd (val z) (val other))"

definition op_mul :: "ComplexSimd \<Rightarrow> ComplexSimd \<Rightarrow> ComplexSimd" where
  "op_mul z other =
     (let realComps = mm_mul_pd (val other) (val z);
          imagComps = mm_mul_pd (val other)
            (mm_move_sd
               (mm_castsi128_pd (mm_bslli_si128_8 (mm_castpd_si128 (val z))))
               (mm_castsi128_pd (mm_bsrli_si128_8 (mm_castpd_si128 (val z)))))
      in ComplexSimd_ri (lane0 realComps - lane1 realComps) (lane0 imagComps + lane1 imagComps))"

definition op_mul_d :: "ComplexSimd \<Rightarrow> double \<Rightarrow> ComplexSimd" where
  \<comment> \<open>\<open>operator*(const double rhs) const\<close>\<close>
  "op_mul_d z rhs = ComplexSimd_v (mm_mul_pd (val z) (mm_set1_pd rhs))"

definition op_div_d :: "ComplexSimd \<Rightarrow> double \<Rightarrow> ComplexSimd" where
  \<comment> \<open>\<open>operator/(const double rhs) const\<close>\<close>
  "op_div_d z rhs = ComplexSimd_v (mm_div_pd (val z) (mm_set1_pd rhs))"

definition d_mul_op :: "double \<Rightarrow> ComplexSimd \<Rightarrow> ComplexSimd" where
  \<comment> \<open>the free \<open>operator*(const double lhs, const ComplexSimd& rhs)\<close>\<close>
  "d_mul_op lhs rhs = ComplexSimd_v (mm_mul_pd (mm_set1_pd lhs) (val rhs))"

definition real_c :: "ComplexSimd \<Rightarrow> double" where
  "real_c cmplx = lane0 (val cmplx)"

definition imag_c :: "ComplexSimd \<Rightarrow> double" where
  "imag_c cmplx = lane1 (val cmplx)"

definition normSqrd :: "ComplexSimd \<Rightarrow> double" where
  "normSqrd cmplx = (let temp = mm_mul_pd (val cmplx) (val cmplx) in lane0 temp + lane1 temp)"

subsection \<open>Calls on objects held in a store\<close>

text \<open>
  Objects live at addresses; a reference argument is an address, and \<open>this\<close> and
  \<open>other\<close> may be the same address. Every call returns its result together with the
  store it leaves behind. The const functions have no assignment in their bodies; the
  compound operators assign to \<open>_val\<close> of \<open>*this\<close> and then return
  \<open>ComplexSimd(_val)\<close>, read back from the object.
\<close>

type_synonym addr = nat
type_synonym store = "addr \<Rightarrow> ComplexSimd"

definition call_add :: "addr \<Rightarrow> addr \<Rightarrow> store \<Rightarrow> ComplexSimd \<times> store" where
  "call_add this other s = (op_add (s this) (s other), s)"

definition call_sub :: "addr \<Rightarrow> addr \<Rightarrow> store \<Rightarrow> ComplexSimd \<times> store" where
  "call_sub this other s = (op_sub (s this) (s other), s)"

definition call_mul :: "addr \<Rightarrow> addr \<Rightarrow> store \<Rightarrow> ComplexSimd \<times> store" where
  "call_mul this other s = (op_mul (s this) (s other), s)"

definition call_mul_d :: "addr \<Rightarrow> double \<Rightarrow> store \<Rightarrow> ComplexSimd \<times> store" where
  "call_mul_d this rhs s = (op_mul_d (s this) rhs, s)"

definition call_div_d :: "addr \<Rightarrow> double \<Rightarrow> store \<Rightarrow> ComplexSimd \<times> store" where
  "call_div_d this rhs s = (op_div_d (s this) rhs, s)"

definition call_d_mul :: "double \<Rightarrow> addr \<Rightarrow> store \<Rightarrow> ComplexSimd \<times> store" where
  "call_d_mul lhs rhs s = (d_mul_op lhs (s rhs), s)"

definition call_real :: "addr \<Rightarrow> store \<Rightarrow> double \<times> store" where
  "call_real cmplx s = (real_c (s cmplx), s)"

definition call_imag :: "addr \<Rightarrow> store \<Rightarrow> double \<times> store" where
  "call_imag cmplx s = (imag_c (s cmplx), s)"

definition call_normSqrd :: "addr \<Rightarrow> store \<Rightarrow> double \<times> store" where
  "call_normSqrd cmplx s = (normSqrd (s cmplx), s)"

definition op_add_assign :: "addr \<Rightarrow> addr \<Rightarrow> store \<Rightarrow> ComplexSimd \<times> store" where
  "op_add_assign this other s =
     (let s' = s(this := (s this)\<lparr>val := mm_add_pd (val (s this)) (val (s other))\<rparr>)
      in (ComplexSimd_v (val (s' this)), s'))"

definition op_sub_assign :: "addr \<Rightarrow> addr \<Rightarrow> store \<Rightarrow> ComplexSimd \<times> store" where
  "op_sub_assign this other s =
     (let s' = s(this := (s this)\<lparr>val := mm_sub_pd (val (s this)) (val (s other))\<rparr>)
      in (ComplexSimd_v (val (s' this)), s'))"

definition op_mul_assign :: "addr \<Rightarrow> addr \<Rightarrow> store \<Rightarrow> ComplexSimd \<times> store" where
  "op_mul_assign this other s =
     (let realComps = mm_mul_pd (val (s other)) (val (s this));
          imagComps = mm_mul_pd (val (s other))
            (mm_move_sd
               (mm_castsi128_pd (mm_bslli_si128_8 (mm_castpd_si128 (val (s this)))))
               (mm_castsi128_pd (mm_bsrli_si128_8 (mm_castpd_si128 (val (s this))))));
          s' = s(this := (s this)\<lparr>val :=
                 mm_set_pd (lane0 realComps - lane1 realComps) (lane0 imagComps + lane1 imagComps)\<rparr>)
      in (ComplexSimd_v (val (s' this)), s'))"

definition op_div_assign_d :: "addr \<Rightarrow> double \<Rightarrow> store \<Rightarrow> ComplexSimd \<times> store" where
  "op_div_assign_d this rhs s =
     (let s' = s(this := (s this)\<lparr>val := mm_div_pd (val (s this)) (mm_set1_pd rhs)\<rparr>)
      in (ComplexSimd_v (val (s' this)), s'))"

section \<open>class QEngineCPU\<close>

type_synonym bitLenInt = nat
type_synonym bitCapInt = nat
type_synonym real1 = double

text \<open>
  The register: \<open>qubitCount\<close> is inherited from \<open>QInterface\<close>; \<open>stateVec\<close> points
  to the amplitude buffer, which holds \<open>2 ^ qubitCount\<close> amplitudes in a well-formed
  register. The amplitudes are ComplexSimd values.
\<close>

record QEngineCPU =
  qubitCount :: bitLenInt
  doNormalize :: bool
  runningNorm :: real1
  stateVec :: "ComplexSimd list"

definition wellFormed :: "QEngineCPU \<Rightarrow> bool" where
  "wellFormed q = (length (stateVec q) = 2 ^ qubitCount q)"

text \<open>
  Modelled from the spec: the body of \<open>UpdateRunningNorm\<close> is not in the header, which
  only declares it. The spec has it recompute the exact sum of squared magnitudes over the
  full buffer, as a full and unconditional reduction, and store it.
\<close>

definition UpdateRunningNorm :: "QEngineCPU \<Rightarrow> QEngineCPU" where
  "UpdateRunningNorm q = q\<lparr>runningNorm := sum_list (map normSqrd (stateVec q))\<rparr>"

definition GetNorm :: "bool \<Rightarrow> QEngineCPU \<Rightarrow> real1 \<times> QEngineCPU" where
  "GetNorm update q =
     (let q' = (if update then UpdateRunningNorm q else q) in (runningNorm q', q'))"

definition SetNorm :: "real1 \<Rightarrow> QEngineCPU \<Rightarrow> QEngineCPU" where
  "SetNorm n q = q\<lparr>runningNorm := n\<rparr>"

definition EnableNormalize :: "bool \<Rightarrow> QEngineCPU \<Rightarrow> QEngineCPU" where
  "EnableNormalize doN q = q\<lparr>doNormalize := doN\<rparr>"

subsection \<open>Validation of the arguments of a call\<close>

datatype error = OutOfRange | Overlap

text \<open>
  Modelled from the spec: the checks live in the implementation file, which is not part of
  the sources. Of the addressing errors the spec names, a qubit index at or above
  \<open>qubitCount\<close> is OutOfRange and two role-distinct bit positions of one call that name
  the same qubit are an Overlap. The import \<open>SetQuantumState(complex* inputState)\<close> is
  declared with a bare pointer and no length, so a check of the length of the imported
  vector has nothing to read and is not modelled.
\<close>

definition checkQubits :: "bitLenInt \<Rightarrow> bitLenInt list \<Rightarrow> error option" where
  "checkQubits n qs =
     (if list_ex (\<lambda>k. n \<le> k) qs then Some OutOfRange
      else if \<not> distinct qs then Some Overlap
      else None)"

subsection \<open>The gate application kernel\<close>

record mtrx2x2 =
  u00 :: ComplexSimd
  u01 :: ComplexSimd
  u10 :: ComplexSimd
  u11 :: ComplexSimd

definition bitOf :: "bitCapInt \<Rightarrow> bitLenInt \<Rightarrow> bool" where
  "bitOf i k = odd (i div 2 ^ k)"

definition controlsActive :: "(bitLenInt \<times> bool) list \<Rightarrow> bitCapInt \<Rightarrow> bool" where
  \<comment> \<open>each control is a qubit with the value it must have: 1 for a control, 0 for an
      anti-control\<close>
  "controlsActive cs i = list_all (\<lambda>c. bitOf i (fst c) = snd c) cs"

text \<open>
  Modelled from the spec: \<open>Apply2x2\<close> and its controlled variants are only declared in
  the header. For every pair of basis indices (i0, i1) that differ in the target bit alone
  and have the controls at their required values, the spec replaces (amp[i0], amp[i1]) by
  (u00 amp[i0] + u01 amp[i1], u10 amp[i0] + u11 amp[i1]); indices that fail the control
  condition pass through. With norm accumulation the running norm becomes the sum of the
  squared magnitudes of the amplitudes written.
\<close>

definition kernelAt ::
  "mtrx2x2 \<Rightarrow> (bitLenInt \<times> bool) list \<Rightarrow> bitLenInt \<Rightarrow> ComplexSimd list \<Rightarrow> bitCapInt \<Rightarrow> ComplexSimd" where
  "kernelAt m cs t amp i =
     (if controlsActive cs i then
        (if bitOf i t
         then op_add (op_mul (u10 m) (amp ! (i - 2 ^ t))) (op_mul (u11 m) (amp ! i))
         else op_add (op_mul (u00 m) (amp ! i)) (op_mul (u01 m) (amp ! (i + 2 ^ t))))
      else amp ! i)"

definition Apply2x2 ::
  "mtrx2x2 \<Rightarrow> (bitLenInt \<times> bool) list \<Rightarrow> bitLenInt \<Rightarrow> bool \<Rightarrow> QEngineCPU \<Rightarrow> QEngineCPU" where
  "Apply2x2 m cs t doCalcNorm q =
     (let nStateVec = map (kernelAt m cs t (stateVec q)) [0..<length (stateVec q)];
          q' = q\<lparr>stateVec := nStateVec\<rparr>
      in if doCalcNorm
         then q'\<lparr>runningNorm :=
                sum_list (map (\<lambda>i. normSqrd (nStateVec ! i))
                            (filter (controlsActive cs) [0..<length nStateVec]))\<rparr>
         else q')"

definition pauliX :: mtrx2x2 where
  "pauliX = \<lparr>u00 = ComplexSimd_ri 0 0, u01 = ComplexSimd_ri 1 0,
            u10 = ComplexSimd_ri 1 0, u11 = ComplexSimd_ri 0 0\<rparr>"

subsection \<open>Modular addition as a permutation of basis indices\<close>

text \<open>
  Modelled from the spec: \<open>INC\<close> is only declared in the header. The spec moves the
  amplitude at index i to the index that has the field of \<open>length\<close> bits at \<open>start\<close>
  reinterpreted as (field + toAdd) mod 2^length, all other bits kept.
\<close>

definition inc_index :: "bitCapInt \<Rightarrow> bitLenInt \<Rightarrow> bitLenInt \<Rightarrow> bitCapInt \<Rightarrow> bitCapInt" where
  "inc_index toAdd start len i =
     (let field = (i div 2 ^ start) mod 2 ^ len;
          newField = (field + toAdd) mod 2 ^ len
      in i - field * 2 ^ start + newField * 2 ^ start)"

definition permuteAmps :: "(bitCapInt \<Rightarrow> bitCapInt) \<Rightarrow> ComplexSimd list \<Rightarrow> ComplexSimd list" where
  "permuteAmps f amp = fold (\<lambda>i nStateVec. nStateVec[f i := amp ! i]) [0..<length amp] amp"

subsection \<open>Calls on a register\<close>

datatype call =
    ApplySingleBit mtrx2x2 bool bitLenInt
  | X bitLenInt
  | CNOT bitLenInt bitLenInt
  | AntiCNOT bitLenInt bitLenInt
  | CCNOT bitLenInt bitLenInt bitLenInt
  | AntiCCNOT bitLenInt bitLenInt bitLenInt
  | INC bitCapInt bitLenInt bitLenInt

fun qubitsOf :: "call \<Rightarrow> bitLenInt list" where
  "qubitsOf (ApplySingleBit mtrx doCalcNorm qubitIndex) = [qubitIndex]"
| "qubitsOf (X qubitIndex) = [qubitIndex]"
| "qubitsOf (CNOT control target) = [control, target]"
| "qubitsOf (AntiCNOT control target) = [control, target]"
| "qubitsOf (CCNOT control1 control2 target) = [control1, control2, target]"
| "qubitsOf (AntiCCNOT control1 control2 target) = [control1, control2, target]"
| "qubitsOf (INC toAdd start len) = [start..<start + len]"

text \<open>
  Modelled from the spec: the bodies of the gate and arithmetic calls are not in the
  header. Validation comes first; what a call that passed validation does to the register
  follows the spec's description of the kernel and of the index permutation.
\<close>

fun validate :: "call \<Rightarrow> QEngineCPU \<Rightarrow> error option" where
  "validate c q = checkQubits (qubitCount q) (qubitsOf c)"

fun mutate :: "call \<Rightarrow> QEngineCPU \<Rightarrow> QEngineCPU" where
  "mutate (ApplySingleBit mtrx doCalcNorm qubitIndex) q = Apply2x2 mtrx [] qubitIndex doCalcNorm q"
| "mutate (X qubitIndex) q = Apply2x2 pauliX [] qubitIndex False q"
| "mutate (CNOT control target) q = Apply2x2 pauliX [(control, True)] target False q"
| "mutate (AntiCNOT control target) q = Apply2x2 pauliX [(control, False)] target False q"
| "mutate (CCNOT control1 control2 target) q =
     Apply2x2 pauliX [(control1, True), (control2, True)] target False q"
| "mutate (AntiCCNOT control1 control2 target) q =
     Apply2x2 pauliX [(control1, False), (control2, False)] target False q"
| "mutate (INC toAdd start len) q =
     q\<lparr>stateVec := permuteAmps (inc_index toAdd start len) (stateVec q)\<rparr>"

definition exec :: "call \<Rightarrow> QEngineCPU \<Rightarrow> error option \<times> QEngineCPU" where
  \<comment> \<open>the error raised, if any, and the register after the call\<close>
  "exec c q = (case validate c q of Some e \<Rightarrow> (Some e, q) | None \<Rightarrow> (None, mutate c q))"

text \<open>A two-qubit register used in the worked examples.\<close>

definition exampleRegister :: QEngineCPU where
  "exampleRegister =
     \<lparr>qubitCount = 2, doNormalize = False, runningNorm = 15,
      stateVec = [ComplexSimd_ri 1 0, ComplexSimd_ri 0 1, ComplexSimd_ri 2 0, ComplexSimd_ri 0 3]\<rparr>"

section \<open>Properties of ComplexSimd\<close>

lemmas mm_defs =
  mm_set_pd_def mm_set1_pd_def mm_add_pd_def mm_sub_pd_def mm_mul_pd_def mm_div_pd_def
  mm_castpd_si128_def mm_castsi128_pd_def mm_bslli_si128_8_def mm_bsrli_si128_8_def
  mm_move_sd_def

lemma val_update_eq: "z\<lparr>val := v\<rparr> = ComplexSimd_v v"
  by (cases z) (simp add: ComplexSimd_v_def)

lemma ComplexSimd_ri_surj: "z = ComplexSimd_ri (real_c z) (imag_c z)"
  by (cases z) (simp add: ComplexSimd_ri_def real_c_def imag_c_def mm_set_pd_def)

lemma real_c_ri: "real_c (ComplexSimd_ri a b) = a"
  by (simp add: ComplexSimd_ri_def real_c_def mm_set_pd_def)

lemma imag_c_ri: "imag_c (ComplexSimd_ri a b) = b"
  by (simp add: ComplexSimd_ri_def imag_c_def mm_set_pd_def)

lemma ComplexSimd_ri_eq_iff: "ComplexSimd_ri a b = ComplexSimd_ri c d \<longleftrightarrow> a = c \<and> b = d"
  by (auto simp: ComplexSimd_ri_def mm_set_pd_def)

text \<open>
  C1. For all complex values z = (a, b) and w = (c, d), lane 0 the real part and lane 1
  the imaginary part, the binary product \<open>z * w\<close> is the complex value
  (a c - b d, a d + b c).
\<close>

theorem op_mul_standard_product:
  "op_mul (ComplexSimd_ri a b) (ComplexSimd_ri c d) = ComplexSimd_ri (a * c - b * d) (a * d + b * c)
   \<and> real_c (op_mul (ComplexSimd_ri a b) (ComplexSimd_ri c d)) = a * c - b * d
   \<and> imag_c (op_mul (ComplexSimd_ri a b) (ComplexSimd_ri c d)) = a * d + b * c"
  by (simp add: op_mul_def ComplexSimd_ri_def real_c_def imag_c_def mm_defs Let_def
        mult.commute add.commute)

text \<open>
  What the compound product does instead: \<open>operator*=\<close> hands the real part of the
  product to \<open>_mm_set_pd\<close> as its first argument, the high lane, so the object ends up
  holding the product with its two lanes exchanged.
\<close>

lemma op_mul_assign_lanes:
  "op_mul_assign p q s =
     (ComplexSimd_ri (imag_c (op_mul (s p) (s q))) (real_c (op_mul (s p) (s q))),
      s(p := ComplexSimd_ri (imag_c (op_mul (s p) (s q))) (real_c (op_mul (s p) (s q)))))"
  by (simp add: op_mul_assign_def op_mul_def val_update_eq ComplexSimd_ri_def ComplexSimd_v_def
        real_c_def imag_c_def mm_defs Let_def)

text \<open>
  C2. The compound assignment \<open>z *= w\<close> should leave z equal to the binary product
  \<open>z * w\<close> and return it. With z = (2, 3) at address 0 and w = (5, 7) at address 1 the
  binary product is (-11, 29), while \<open>z *= w\<close> returns (29, -11) and leaves that in z.
\<close>

theorem op_mul_assign_differs_from_op_mul:
  "fst (call_mul 0 1 ((\<lambda>_. ComplexSimd_ri 0 0)(0 := ComplexSimd_ri 2 3, 1 := ComplexSimd_ri 5 7)))
     = ComplexSimd_ri (- 11) 29
   \<and> fst (op_mul_assign 0 1 ((\<lambda>_. ComplexSimd_ri 0 0)(0 := ComplexSimd_ri 2 3, 1 := ComplexSimd_ri 5 7)))
     = ComplexSimd_ri 29 (- 11)
   \<and> snd (op_mul_assign 0 1 ((\<lambda>_. ComplexSimd_ri 0 0)(0 := ComplexSimd_ri 2 3, 1 := ComplexSimd_ri 5 7))) 0
     = ComplexSimd_ri 29 (- 11)
   \<and> fst (op_mul_assign 0 1 ((\<lambda>_. ComplexSimd_ri 0 0)(0 := ComplexSimd_ri 2 3, 1 := ComplexSimd_ri 5 7)))
     \<noteq> fst (call_mul 0 1 ((\<lambda>_. ComplexSimd_ri 0 0)(0 := ComplexSimd_ri 2 3, 1 := ComplexSimd_ri 5 7)))"
  by (simp add: call_mul_def op_mul_assign_def op_mul_def val_update_eq ComplexSimd_ri_def
        ComplexSimd_v_def mm_defs Let_def)

text \<open>
  C3. For every complex value z = (a, b), \<open>normSqrd\<close> returns \<open>a\<^sup>2 + b\<^sup>2\<close>, and the
  call leaves the store, z included, as it was.
\<close>

theorem normSqrd_sum_of_squares:
  "normSqrd (ComplexSimd_ri a b) = a\<^sup>2 + b\<^sup>2
   \<and> call_normSqrd p s = ((real_c (s p))\<^sup>2 + (imag_c (s p))\<^sup>2, s)"
  by (simp add: normSqrd_def call_normSqrd_def ComplexSimd_ri_def real_c_def imag_c_def
        mm_defs Let_def power2_eq_square)

text \<open>
  C4. For all z = (a, b) and w = (c, d): \<open>z + w\<close> is (a + c, b + d) and \<open>z - w\<close> is
  (a - c, b - d); \<open>z += w\<close> and \<open>z -= w\<close> store \<open>z + w\<close> and \<open>z - w\<close> in z, change no
  other object, and return the stored value. The operands may be the same object.
\<close>

theorem add_sub_componentwise:
  "op_add (ComplexSimd_ri a b) (ComplexSimd_ri c d) = ComplexSimd_ri (a + c) (b + d)
   \<and> op_sub (ComplexSimd_ri a b) (ComplexSimd_ri c d) = ComplexSimd_ri (a - c) (b - d)
   \<and> op_add_assign p q s = (op_add (s p) (s q), s(p := op_add (s p) (s q)))
   \<and> op_sub_assign p q s = (op_sub (s p) (s q), s(p := op_sub (s p) (s q)))"
  by (simp add: op_add_def op_sub_def op_add_assign_def op_sub_assign_def val_update_eq
        ComplexSimd_ri_def ComplexSimd_v_def mm_defs Let_def)

text \<open>
  C5. For every z = (a, b) and real scalar sc: \<open>z * sc\<close> and \<open>sc * z\<close> are both
  (a sc, b sc); and for sc \<noteq> 0, \<open>z / sc\<close> is (a / sc, b / sc) and \<open>z /= sc\<close> stores
  \<open>z / sc\<close> in z and returns it.
\<close>

theorem scalar_mul_div:
  "op_mul_d (ComplexSimd_ri a b) sc = ComplexSimd_ri (a * sc) (b * sc)
   \<and> d_mul_op sc (ComplexSimd_ri a b) = ComplexSimd_ri (a * sc) (b * sc)
   \<and> op_mul_d z sc = d_mul_op sc z
   \<and> (sc \<noteq> 0 \<longrightarrow>
        op_div_d (ComplexSimd_ri a b) sc = ComplexSimd_ri (a / sc) (b / sc)
        \<and> op_div_assign_d p sc s = (op_div_d (s p) sc, s(p := op_div_d (s p) sc)))"
  by (simp add: op_mul_d_def d_mul_op_def op_div_d_def op_div_assign_d_def val_update_eq
        ComplexSimd_ri_def ComplexSimd_v_def mm_defs Let_def mult.commute)

theorem scalar_mul_div_witness:
  "op_mul_d (ComplexSimd_ri 6 9) 3 = ComplexSimd_ri 18 27
   \<and> d_mul_op 3 (ComplexSimd_ri 6 9) = ComplexSimd_ri 18 27
   \<and> op_mul_d (ComplexSimd_ri 6 9) 3 = d_mul_op 3 (ComplexSimd_ri 6 9)
   \<and> op_div_d (ComplexSimd_ri 6 9) 3 = ComplexSimd_ri 2 3
   \<and> fst (op_div_assign_d 0 3 (\<lambda>_. ComplexSimd_ri 6 9)) = ComplexSimd_ri 2 3
   \<and> snd (op_div_assign_d 0 3 (\<lambda>_. ComplexSimd_ri 6 9)) 0 = ComplexSimd_ri 2 3"
  using scalar_mul_div [of 6 9 3 "ComplexSimd_ri 6 9" 0 "\<lambda>_. ComplexSimd_ri 6 9"]
  by simp

text \<open>
  C6. The binary operations have value semantics: evaluating \<open>z + w\<close>, \<open>z - w\<close>,
  \<open>z * w\<close>, \<open>z * sc\<close>, \<open>sc * z\<close>, \<open>z / sc\<close>, \<open>real(z)\<close>, \<open>imag(z)\<close> or
  \<open>normSqrd(z)\<close> leaves the store, and so both operands, as before the call.
\<close>

theorem const_calls_leave_store:
  "snd (call_add p q s) = s \<and> snd (call_sub p q s) = s \<and> snd (call_mul p q s) = s
   \<and> snd (call_mul_d p sc s) = s \<and> snd (call_d_mul sc p s) = s \<and> snd (call_div_d p sc s) = s
   \<and> snd (call_real p s) = s \<and> snd (call_imag p s) = s \<and> snd (call_normSqrd p s) = s"
  by (simp add: call_add_def call_sub_def call_mul_def call_mul_d_def call_d_mul_def
        call_div_d_def call_real_def call_imag_def call_normSqrd_def)

text \<open>
  C10. The binary product is commutative over the reals: \<open>z * w\<close> and \<open>w * z\<close> have
  equal real lanes and equal imaginary lanes.
\<close>

theorem op_mul_commute:
  "op_mul z w = op_mul w z
   \<and> real_c (op_mul z w) = real_c (op_mul w z) \<and> imag_c (op_mul z w) = imag_c (op_mul w z)"
  by (simp add: op_mul_def ComplexSimd_ri_def real_c_def imag_c_def mm_defs Let_def
        mult.commute add.commute)

section \<open>Properties of the register\<close>

subsection \<open>Scattering amplitudes along an injective index map\<close>

lemma length_scatter: "length (fold (\<lambda>i nv. nv[f i := amp ! i]) is nv0) = length nv0"
  by (induction "is" arbitrary: nv0) auto

lemma scatter_nth:
  assumes "inj_on f (set is)" "i \<in> set is" "f i < length nv0"
  shows "fold (\<lambda>i nv. nv[f i := amp ! i]) is nv0 ! f i = amp ! i"
  using assms
proof (induction "is" arbitrary: nv0 rule: rev_induct)
  case Nil
  then show ?case by simp
next
  case (snoc k ks)
  show ?case
  proof (cases "i = k")
    case True
    then show ?thesis using snoc.prems by (simp add: length_scatter)
  next
    case False
    with snoc.prems have ik: "i \<in> set ks" and ne: "f i \<noteq> f k"
      by (auto simp: inj_on_def)
    have "inj_on f (set ks)" using snoc.prems(1) by (auto simp: inj_on_def)
    from snoc.IH [OF this ik snoc.prems(3)] ne show ?thesis by simp
  qed
qed

lemma field_decomp:
  "(i::nat) = (i div 2 ^ (s + l)) * 2 ^ (s + l) + ((i div 2 ^ s) mod 2 ^ l) * 2 ^ s + i mod 2 ^ s"
proof -
  define q where "q = i div 2 ^ s"
  have h: "i div 2 ^ (s + l) = q div 2 ^ l"
    by (simp add: q_def div_mult2_eq power_add)
  have "i = q * 2 ^ s + i mod 2 ^ s"
    unfolding q_def by (rule div_mult_mod_eq [symmetric])
  also have "q = (q div 2 ^ l) * 2 ^ l + q mod 2 ^ l"
    by (rule div_mult_mod_eq [symmetric])
  finally have "i = ((q div 2 ^ l) * 2 ^ l + q mod 2 ^ l) * 2 ^ s + i mod 2 ^ s" .
  then have "i = (q div 2 ^ l) * 2 ^ (s + l) + (q mod 2 ^ l) * 2 ^ s + i mod 2 ^ s"
    by (simp add: power_add add_mult_distrib mult.assoc mult.commute [of "2 ^ l" "2 ^ s"])
  then show ?thesis unfolding h unfolding q_def .
qed

lemma inc_index_alt:
  "inc_index a s l i = (i div 2 ^ (s + l)) * 2 ^ (s + l) + (((i div 2 ^ s) mod 2 ^ l + a) mod 2 ^ l) * 2 ^ s + i mod 2 ^ s"
proof -
  have "i - ((i div 2 ^ s) mod 2 ^ l) * 2 ^ s = (i div 2 ^ (s + l)) * 2 ^ (s + l) + i mod 2 ^ s"
    using field_decomp [of i s l] by linarith
  then show ?thesis by (simp add: inc_index_def Let_def)
qed

lemma compose_parts:
  assumes "x < 2 ^ l" "r < 2 ^ s"
  shows "((h * 2 ^ (s + l) + x * 2 ^ s + r) div 2 ^ s) mod 2 ^ l = (x::nat)"
    and "(h * 2 ^ (s + l) + x * 2 ^ s + r) mod 2 ^ s = r"
    and "(h * 2 ^ (s + l) + x * 2 ^ s + r) div 2 ^ (s + l) = h"
proof -
  have e: "h * 2 ^ (s + l) + x * 2 ^ s + r = (h * 2 ^ l + x) * 2 ^ s + r"
    by (simp add: power_add algebra_simps)
  show "(h * 2 ^ (s + l) + x * 2 ^ s + r) mod 2 ^ s = r"
    unfolding e using assms(2) by simp
  have d: "(h * 2 ^ (s + l) + x * 2 ^ s + r) div 2 ^ s = h * 2 ^ l + x"
    unfolding e using assms(2) by simp
  show "((h * 2 ^ (s + l) + x * 2 ^ s + r) div 2 ^ s) mod 2 ^ l = x"
    unfolding d using assms(1) by simp
  have "(h * 2 ^ (s + l) + x * 2 ^ s + r) div 2 ^ (s + l) = (h * 2 ^ (s + l) + x * 2 ^ s + r) div 2 ^ s div 2 ^ l"
    by (simp add: div_mult2_eq power_add)
  also have "\<dots> = h" unfolding d using assms(1) by simp
  finally show "(h * 2 ^ (s + l) + x * 2 ^ s + r) div 2 ^ (s + l) = h" .
qed

lemma inc_index_compose:
  "inc_index b s l (inc_index a s l i) = inc_index (a + b) s l i"
proof -
  let ?h = "i div 2 ^ (s + l)" and ?x = "((i div 2 ^ s) mod 2 ^ l + a) mod 2 ^ l" and ?r = "i mod 2 ^ s"
  have x: "?x < 2 ^ l" and r: "?r < 2 ^ s" by simp_all
  have j: "inc_index a s l i = ?h * 2 ^ (s + l) + ?x * 2 ^ s + ?r" by (rule inc_index_alt)
  have "inc_index b s l (inc_index a s l i) = ?h * 2 ^ (s + l) + ((?x + b) mod 2 ^ l) * 2 ^ s + ?r"
    unfolding inc_index_alt [of b] unfolding j
    by (simp only: compose_parts [OF x r])
  moreover have "(?x + b) mod 2 ^ l = ((i div 2 ^ s) mod 2 ^ l + (a + b)) mod 2 ^ l"
    by (metis add.assoc mod_add_left_eq)
  ultimately show ?thesis by (simp add: inc_index_alt [of "a + b"])
qed

lemma inc_index_full_turn:
  assumes "a mod 2 ^ l = 0"
  shows "inc_index a s l i = i"
proof -
  have "((i div 2 ^ s) mod 2 ^ l + a) mod 2 ^ l = (i div 2 ^ s) mod 2 ^ l"
    using assms by (metis add.right_neutral mod_add_right_eq mod_mod_trivial)
  then show ?thesis
    using field_decomp [of i s l] by (simp add: inc_index_alt)
qed

lemma inc_index_bound:
  assumes "i < 2 ^ n" "s + l \<le> n"
  shows "inc_index a s l i < 2 ^ n"
proof -
  let ?h = "i div 2 ^ (s + l)" and ?x = "((i div 2 ^ s) mod 2 ^ l + a) mod 2 ^ l" and ?r = "i mod 2 ^ s"
  have x: "?x < 2 ^ l" and r: "?r < 2 ^ s" by simp_all
  have j: "inc_index a s l i = ?h * 2 ^ (s + l) + ?x * 2 ^ s + ?r" by (rule inc_index_alt)
  have hd: "inc_index a s l i div 2 ^ (s + l) = ?h"
    unfolding j by (rule compose_parts(3) [OF x r])
  have n: "(2::nat) ^ n = 2 ^ (n - (s + l)) * 2 ^ (s + l)"
    using assms(2) by (simp flip: power_add)
  have "?h < 2 ^ (n - (s + l))"
    using assms(1) unfolding n by (simp add: less_mult_imp_div_less)
  then have "inc_index a s l i div 2 ^ (s + l) < 2 ^ (n - (s + l))" by (simp only: hd)
  then show ?thesis unfolding n
    by (metis div_less_iff_less_mult pos2 zero_less_power mult.commute)
qed

subsection \<open>The running norm\<close>

text \<open>
  C7. \<open>GetNorm\<close> with \<open>update = true\<close> first runs \<open>UpdateRunningNorm\<close>, which sets
  the running norm to the sum of the squared magnitudes over the whole amplitude buffer,
  and returns the refreshed value; with \<open>update = false\<close> it returns the cached
  \<open>runningNorm\<close> and leaves the register as it is. Neither call changes the amplitudes.
\<close>

theorem GetNorm_update_or_cached:
  "GetNorm True q = (runningNorm (UpdateRunningNorm q), UpdateRunningNorm q)
   \<and> fst (GetNorm True q) = sum_list (map normSqrd (stateVec q))
   \<and> fst (GetNorm True q) = sum_list (map (\<lambda>z. (real_c z)\<^sup>2 + (imag_c z)\<^sup>2) (stateVec q))
   \<and> stateVec (snd (GetNorm True q)) = stateVec q
   \<and> qubitCount (snd (GetNorm True q)) = qubitCount q
   \<and> GetNorm False q = (runningNorm q, q)"
proof -
  have "normSqrd = (\<lambda>z. (real_c z)\<^sup>2 + (imag_c z)\<^sup>2)"
    by (rule ext) (simp add: normSqrd_def real_c_def imag_c_def mm_mul_pd_def Let_def power2_eq_square)
  then show ?thesis
    by (simp add: GetNorm_def UpdateRunningNorm_def Let_def)
qed

subsection \<open>Worked calls\<close>

text \<open>Calls that pass validation do change the amplitudes.\<close>

lemma accepted_calls_example:
  "exec (CNOT 0 1) exampleRegister =
     (None, exampleRegister\<lparr>stateVec :=
        [ComplexSimd_ri 1 0, ComplexSimd_ri 0 3, ComplexSimd_ri 2 0, ComplexSimd_ri 0 1]\<rparr>)"
  "exec (X 1) exampleRegister =
     (None, exampleRegister\<lparr>stateVec :=
        [ComplexSimd_ri 2 0, ComplexSimd_ri 0 3, ComplexSimd_ri 1 0, ComplexSimd_ri 0 1]\<rparr>)"
  "exec (INC 1 0 2) exampleRegister =
     (None, exampleRegister\<lparr>stateVec :=
        [ComplexSimd_ri 0 3, ComplexSimd_ri 1 0, ComplexSimd_ri 0 1, ComplexSimd_ri 2 0]\<rparr>)"
  by (simp_all add: exampleRegister_def exec_def checkQubits_def Apply2x2_def kernelAt_def
        controlsActive_def bitOf_def pauliX_def permuteAmps_def inc_index_def Let_def
        op_add_def op_mul_def ComplexSimd_ri_def ComplexSimd_v_def mm_defs
        upt_rec [of _ "numeral _"] upt_rec [of _ "Suc _"])

subsection \<open>Modular addition round trip\<close>

lemma length_permuteAmps: "length (permuteAmps f amp) = length amp"
  by (simp add: permuteAmps_def length_scatter)

lemma permuteAmps_nth:
  assumes "inj_on f {0..<length amp}" "i < length amp" "f i < length amp"
  shows "permuteAmps f amp ! f i = amp ! i"
  unfolding permuteAmps_def using assms by (intro scatter_nth) simp_all

lemma permuteAmps_round_trip:
  assumes fb: "\<And>i. i < length amp \<Longrightarrow> f i < length amp"
      and gb: "\<And>i. i < length amp \<Longrightarrow> g i < length amp"
      and gf: "\<And>i. g (f i) = i"
      and fg: "\<And>i. f (g i) = i"
  shows "permuteAmps g (permuteAmps f amp) = amp"
proof (rule nth_equalityI)
  show "length (permuteAmps g (permuteAmps f amp)) = length amp"
    by (simp add: length_permuteAmps)
next
  fix i
  assume "i < length (permuteAmps g (permuteAmps f amp))"
  then have i: "i < length amp" by (simp add: length_permuteAmps)
  have injf: "inj_on f {0..<length amp}" by (rule inj_on_inverseI [of _ g]) (rule gf)
  have injg: "inj_on g {0..<length (permuteAmps f amp)}" by (rule inj_on_inverseI [of _ f]) (rule fg)
  have fi: "f i < length (permuteAmps f amp)" using fb [OF i] by (simp add: length_permuteAmps)
  have "permuteAmps g (permuteAmps f amp) ! g (f i) = permuteAmps f amp ! f i"
    using injg fi by (rule permuteAmps_nth) (simp add: gf length_permuteAmps i)
  also have "\<dots> = amp ! i"
    using injf i fb [OF i] by (rule permuteAmps_nth)
  finally show "permuteAmps g (permuteAmps f amp) ! i = amp ! i" by (simp add: gf)
qed

lemma inc_index_inverse:
  assumes "a \<le> 2 ^ l"
  shows "inc_index (2 ^ l - a) s l (inc_index a s l i) = i"
    and "inc_index a s l (inc_index (2 ^ l - a) s l i) = i"
  using assms by (simp_all add: inc_index_compose inc_index_full_turn)

lemma validate_INC_ok:
  assumes "start + len \<le> qubitCount q"
  shows "validate (INC toAdd start len) q = None"
  using assms by (auto simp: checkQubits_def list_ex_iff)

lemma exec_INC_ok:
  assumes "start + len \<le> qubitCount q"
  shows "exec (INC toAdd start len) q =
           (None, q\<lparr>stateVec := permuteAmps (inc_index toAdd start len) (stateVec q)\<rparr>)"
  using validate_INC_ok [OF assms] by (simp add: exec_def)

text \<open>
  C9. For every well-formed register, every start and length with
  start + length \<le> qubitCount and every toAdd < 2^length: both
  \<open>INC(toAdd, start, length)\<close> and the following \<open>INC(2^length - toAdd, start, length)\<close>
  are accepted, and after the two calls the amplitude vector is the one before the first.
\<close>

theorem INC_round_trip:
  assumes "wellFormed q" and "start + len \<le> qubitCount q" and "toAdd < 2 ^ len"
  shows "fst (exec (INC toAdd start len) q) = None
       \<and> fst (exec (INC (2 ^ len - toAdd) start len) (snd (exec (INC toAdd start len) q))) = None
       \<and> stateVec (snd (exec (INC (2 ^ len - toAdd) start len) (snd (exec (INC toAdd start len) q))))
           = stateVec q"
proof -
  let ?f = "inc_index toAdd start len" and ?g = "inc_index (2 ^ len - toAdd) start len"
  have n: "length (stateVec q) = 2 ^ qubitCount q"
    using assms(1) by (simp add: wellFormed_def)
  have a: "toAdd \<le> 2 ^ len" using assms(3) by simp
  have rt: "permuteAmps ?g (permuteAmps ?f (stateVec q)) = stateVec q"
  proof (rule permuteAmps_round_trip)
    show "?f i < length (stateVec q)" if "i < length (stateVec q)" for i
      using that assms(2) unfolding n by (rule inc_index_bound)
    show "?g i < length (stateVec q)" if "i < length (stateVec q)" for i
      using that assms(2) unfolding n by (rule inc_index_bound)
    show "?g (?f i) = i" for i by (rule inc_index_inverse(1) [OF a])
    show "?f (?g i) = i" for i by (rule inc_index_inverse(2) [OF a])
  qed
  have e1: "exec (INC toAdd start len) q = (None, q\<lparr>stateVec := permuteAmps ?f (stateVec q)\<rparr>)"
    by (rule exec_INC_ok [OF assms(2)])
  have e2: "exec (INC (2 ^ len - toAdd) start len) (q\<lparr>stateVec := permuteAmps ?f (stateVec q)\<rparr>) =
              (None, q\<lparr>stateVec := permuteAmps ?g (permuteAmps ?f (stateVec q))\<rparr>)"
    using exec_INC_ok [of start len "q\<lparr>stateVec := permuteAmps ?f (stateVec q)\<rparr>" "2 ^ len - toAdd"]
      assms(2) by simp
  show ?thesis unfolding e1 by (simp add: e2 rt)
qed

theorem INC_round_trip_witness:
  "wellFormed exampleRegister \<and> 0 + 2 \<le> qubitCount exampleRegister \<and> (1::nat) < 2 ^ 2
   \<and> fst (exec (INC 1 0 2) exampleRegister) = None
   \<and> fst (exec (INC 3 0 2) (snd (exec (INC 1 0 2) exampleRegister))) = None
   \<and> stateVec (snd (exec (INC 3 0 2) (snd (exec (INC 1 0 2) exampleRegister))))
       = stateVec exampleRegister"
proof -
  have h1: "wellFormed exampleRegister" by (simp add: wellFormed_def exampleRegister_def)
  have h2: "0 + 2 \<le> qubitCount exampleRegister" by (simp add: exampleRegister_def)
  have h3: "(1::nat) < 2 ^ 2" by simp
  show ?thesis using h1 h2 h3 INC_round_trip [OF h1 h2 h3] by simp
qed

end
